theory Spec2Isabelle
  imports Main "HOL-Library.Word" "HOL-Library.Sublist"
begin

section \<open>JavaScript values of the front end\<close>

text \<open>
  A JavaScript string is a sequence of UTF-16 code units. String literals of the source
  are ASCII, so \<open>js ''abc''\<close> maps each character to the code unit of the same number.
\<close>

type_synonym jschar = "16 word"
type_synonym jsstring = "jschar list"

definition cu :: "char \<Rightarrow> jschar" where
  "cu c = of_nat (of_char c)"

definition js :: "string \<Rightarrow> jsstring" where
  "js s = map cu s"

text \<open>
  The values a parsed tool result can hold (\<open>content: any\<close> in \<open>utils/toolUtils\<close>).
  An object is its list of own properties; a key is looked up from the front. Numbers keep
  only what truthiness needs: \<open>NaN\<close>, the two zeros, or some other number.
\<close>

datatype jsnumber = NaN | PlusZero | MinusZero | NonZero int

datatype jsval =
    JUndefined
  | JNull
  | JBool bool
  | JNumber jsnumber
  | JString jsstring
  | JFunction
  | JArray "jsval list"
  | JObject "(string \<times> jsval) list"

text \<open>\<open>!content\<close>: the falsy values are undefined, null, false, the zeros, NaN and the empty string.\<close>

fun falsy :: "jsval \<Rightarrow> bool" where
  "falsy JUndefined = True"
| "falsy JNull = True"
| "falsy (JBool b) = (\<not> b)"
| "falsy (JNumber n) = (n = NaN \<or> n = PlusZero \<or> n = MinusZero)"
| "falsy (JString s) = (s = [])"
| "falsy JFunction = False"
| "falsy (JArray xs) = False"
| "falsy (JObject ps) = False"

text \<open>\<open>typeof content === 'object'\<close> holds of null, arrays and objects.\<close>

fun typeof_object :: "jsval \<Rightarrow> bool" where
  "typeof_object JNull = True"
| "typeof_object (JArray xs) = True"
| "typeof_object (JObject ps) = True"
| "typeof_object v = False"

text \<open>
  \<open>key in content\<close> for the keys \<open>success\<close> and \<open>error\<close>: an array has only its indices and
  \<open>length\<close>, and neither prototype has these names, so only an object's own properties count.
\<close>

fun has_key :: "string \<Rightarrow> jsval \<Rightarrow> bool" where
  "has_key k (JObject ps) = (k \<in> fst ` set ps)"
| "has_key k v = False"

fun get_key :: "string \<Rightarrow> jsval \<Rightarrow> jsval" where
  "get_key k (JObject ps) = (case map_of ps k of Some v \<Rightarrow> v | None \<Rightarrow> JUndefined)"
| "get_key k v = JUndefined"

section \<open>Tool results: \<open>isSuccess\<close>\<close>

text \<open>
  \<^verbatim>\<open>
  export const isSuccess = (content: any) => {
      if (!content) return false
      if (typeof content === 'object') {
          if ('success' in content) { return content.success }
          if ('error' in content) { return false }
          return true
      }
      return false
  }
  \<close>
  The function returns a JavaScript value: the \<open>success\<close> field is handed back as it is.
\<close>

definition isSuccess :: "jsval \<Rightarrow> jsval" where
  "isSuccess content =
     (if falsy content then JBool False
      else if typeof_object content then
        (if has_key ''success'' content then get_key ''success'' content
         else if has_key ''error'' content then JBool False
         else JBool True)
      else JBool False)"

section \<open>Skill checks\<close>

text \<open>
  The resolver itself is server code that the front end only displays the results of; the
  repository's product notes give the formula
  \<open>Target = (Base Stat * 3) + (Skill Rank * 10) - Difficulty\<close> with difficulty
  \<open>-20\<close> (favorable), \<open>0\<close> (normal), \<open>+20\<close> (unfavorable).
\<close>

datatype difficulty = Favorable | Normal | Unfavorable

datatype error = ValidationError

record SkillCheckResult =
  target :: int
  roll :: int
  success :: bool
  margin :: int

text \<open>
  Modelled from the spec: the skill-check resolver (\<open>resolve\<close> of section 4.1), whose code is
  not among the sources. \<open>difficulty_offset\<close> is \<open>-20\<close>, \<open>0\<close>, \<open>+20\<close> for
  favorable, normal, unfavorable.
\<close>

fun difficulty_offset :: "difficulty \<Rightarrow> int" where
  "difficulty_offset Favorable = -20"
| "difficulty_offset Normal = 0"
| "difficulty_offset Unfavorable = 20"

text \<open>
  Modelled from the spec: \<open>target = stat_value * 3 + skill_rank * 10 - difficulty_offset\<close>,
  clamped to \<open>[1, 99]\<close>.
\<close>

definition compute_target :: "int \<Rightarrow> int \<Rightarrow> difficulty \<Rightarrow> int" where
  "compute_target stat_value skill_rank d =
     max 1 (min 99 (stat_value * 3 + skill_rank * 10 - difficulty_offset d))"

text \<open>
  Modelled from the spec: \<open>resolve\<close> with the percentile roll it draws given as an argument.
  A negative rank fails fast with a validation error; success iff \<open>roll <= target\<close>;
  \<open>margin = target - roll\<close>.
\<close>

definition resolve :: "int \<Rightarrow> int \<Rightarrow> difficulty \<Rightarrow> int \<Rightarrow> error + SkillCheckResult" where
  "resolve stat_value skill_rank d r =
     (if skill_rank < 0 then Inl ValidationError
      else let t = compute_target stat_value skill_rank d
           in Inr \<lparr>target = t, roll = r, success = (r \<le> t), margin = t - r\<rparr>)"

section \<open>The SPEAKER tag pattern\<close>

text \<open>
  \<open>flushNarrativeBuffer\<close> removes control tags with
  \<^verbatim>\<open>text.replace(/<<\s*SPEAKER\s*:\s*(.*?)\s*>>/gi, '')\<close>.
  The pattern is a sequence of single characters and of starred character classes, so the
  backtracking matcher of ECMAScript is modelled for exactly that fragment: a node matches
  one code unit of a class, or a class any number of times, greedily (\<open>*\<close>: longest
  first) or lazily (\<open>*?\<close>: shortest first). \<open>rmatch r s\<close> tries the alternatives in
  the order of the language definition and returns what is left of \<open>s\<close> after the first
  match found, or \<open>None\<close> when no alternative matches at the start of \<open>s\<close>. The capture
  group only feeds a \<open>console.log\<close>, so it is not recorded.
\<close>

datatype node = Single "jschar \<Rightarrow> bool" | Star "jschar \<Rightarrow> bool" | LazyStar "jschar \<Rightarrow> bool"

fun rmatch :: "node list \<Rightarrow> jsstring \<Rightarrow> jsstring option" where
  "rmatch [] s = Some s"
| "rmatch (Single p # r) [] = None"
| "rmatch (Single p # r) (c # cs) = (if p c then rmatch r cs else None)"
| "rmatch (Star p # r) [] = rmatch r []"
| "rmatch (Star p # r) (c # cs) =
     (if p c then (case rmatch (Star p # r) cs of Some rest \<Rightarrow> Some rest | None \<Rightarrow> rmatch r (c # cs))
      else rmatch r (c # cs))"
| "rmatch (LazyStar p # r) [] = rmatch r []"
| "rmatch (LazyStar p # r) (c # cs) =
     (case rmatch r (c # cs) of Some rest \<Rightarrow> Some rest
      | None \<Rightarrow> if p c then rmatch (LazyStar p # r) cs else None)"

text \<open>
  \<open>\s\<close>: the white space and line terminator code units of ECMAScript (TAB, LF, VT, FF,
  CR, SP, NBSP, U+1680, U+2000 to U+200A, U+2028, U+2029, U+202F, U+205F, U+3000, U+FEFF).
\<close>

definition is_ws :: "jschar \<Rightarrow> bool" where
  "is_ws c = (c \<in> {0x09, 0x0A, 0x0B, 0x0C, 0x0D, 0x20, 0xA0, 0x1680, 0x2028, 0x2029,
                    0x202F, 0x205F, 0x3000, 0xFEFF} \<or> (0x2000 \<le> c \<and> c \<le> 0x200A))"

text \<open>\<open>.\<close> without the \<open>s\<close> flag: any code unit but the line terminators LF, CR, U+2028, U+2029.\<close>

definition is_dot :: "jschar \<Rightarrow> bool" where
  "is_dot c = (c \<notin> {0x0A, 0x0D, 0x2028, 0x2029})"

definition lit :: "char \<Rightarrow> jschar \<Rightarrow> bool" where
  "lit a c = (c = cu a)"

text \<open>
  A letter under the \<open>i\<close> flag (no \<open>u\<close> flag): a code unit matches when its upper-case
  form is the letter's. For the letters of \<open>SPEAKER\<close> these are the letter and its lower
  case only (U+017F and U+212A do not canonicalise to \<open>S\<close> and \<open>K\<close> without the \<open>u\<close> flag).
\<close>

definition ci :: "char \<Rightarrow> char \<Rightarrow> jschar \<Rightarrow> bool" where
  "ci upper lower c = (c = cu upper \<or> c = cu lower)"

definition tagRegex :: "node list" where
  "tagRegex =
     [Single (lit CHR ''<''), Single (lit CHR ''<''), Star is_ws,
      Single (ci CHR ''S'' CHR ''s''), Single (ci CHR ''P'' CHR ''p''), Single (ci CHR ''E'' CHR ''e''),
      Single (ci CHR ''A'' CHR ''a''), Single (ci CHR ''K'' CHR ''k''), Single (ci CHR ''E'' CHR ''e''),
      Single (ci CHR ''R'' CHR ''r''), Star is_ws, Single (lit CHR '':''), Star is_ws,
      LazyStar is_dot, Star is_ws, Single (lit CHR ''>''), Single (lit CHR ''>'')]"

lemma rmatch_suffix: "rmatch r s = Some rest \<Longrightarrow> suffix rest s"
proof (induction r s arbitrary: rest rule: rmatch.induct)
  case (5 p r c cs)
  then show ?case
    by (auto split: if_splits option.splits intro: suffix_ConsI)
next
  case (7 p r c cs)
  then show ?case
    by (auto split: if_splits option.splits intro: suffix_ConsI)
qed (auto split: if_splits intro: suffix_ConsI)

lemma tagRegex_consumes: "rmatch tagRegex (c # cs) = Some rest \<Longrightarrow> length rest < Suc (length cs)"
proof -
  assume m: "rmatch tagRegex (c # cs) = Some rest"
  then obtain r' where "rmatch r' cs = Some rest"
    by (auto simp: tagRegex_def split: if_splits)
  then have "suffix rest cs" by (rule rmatch_suffix)
  then have "length rest \<le> length cs" by (rule suffix_length_le)
  then show ?thesis by simp
qed

text \<open>
  \<open>text.replace(tagRegex, '')\<close> with the \<open>g\<close> flag: scanning from the left, every match
  is dropped and the scan goes on after it; a code unit at which no match starts is kept.
  A match of this pattern is never empty, so the scan always advances.
\<close>

function replace_tags :: "jsstring \<Rightarrow> jsstring" where
  "replace_tags [] = []"
| "replace_tags (c # cs) =
     (case rmatch tagRegex (c # cs) of
        Some rest \<Rightarrow> replace_tags rest
      | None \<Rightarrow> c # replace_tags cs)"
  by pat_completeness auto
termination
  by (relation "measure length") (auto dest: tagRegex_consumes)

text \<open>
  \<open>text.lastIndexOf(pat)\<close>: the greatest index at which \<open>pat\<close> occurs in \<open>text\<close>, or \<open>-1\<close>.
\<close>

fun last_occurrence :: "jsstring \<Rightarrow> jsstring \<Rightarrow> nat option" where
  "last_occurrence pat [] = (if pat = [] then Some 0 else None)"
| "last_occurrence pat (c # cs) =
     (case last_occurrence pat cs of
        Some i \<Rightarrow> Some (Suc i)
      | None \<Rightarrow> if prefix pat (c # cs) then Some 0 else None)"

definition lastIndexOf :: "jsstring \<Rightarrow> jsstring \<Rightarrow> int" where
  "lastIndexOf text pat = (case last_occurrence pat text of Some i \<Rightarrow> int i | None \<Rightarrow> - 1)"

section \<open>The game view: timeline and narration buffer\<close>

text \<open>
  \<open>ChoiceData\<close> and \<open>TimelineEvent\<close> of \<open>services/api\<close>. The \<open>type\<close> of an event is the
  string the server sent. \<open>content\<close> is typed \<open>any\<close>; the view stores a string, the choice
  list of a \<open>CHOICE\<close> event, or nothing, and these three are modelled. \<open>metadata\<close> is only
  copied, so its type is left open.
\<close>

record ChoiceData =
  choice_id :: jsstring
  label :: jsstring
  skill_check :: "jsstring option"
  choice_difficulty :: "difficulty option"

datatype content = Text jsstring | Choices "ChoiceData list" | Undefined

record 'm TimelineEvent =
  type :: string
  timestamp :: jsstring
  content :: content
  icon :: "jsstring option"
  metadata :: "'m option"

definition TimelineEvent_types :: "string list" where
  "TimelineEvent_types =
     [''USER_INPUT'', ''SYSTEM_LOG'', ''NARRATIVE'', ''CHOICE'', ''SKILL_CHECK'', ''COMBAT_ATTACK'',
      ''COMBAT_DAMAGE'', ''COMBAT_INFO'', ''COMBAT_TURN'', ''ITEM_ADDED'', ''ITEM_REMOVED'',
      ''ITEM_CRAFTED'', ''CURRENCY_CHANGE'']"

text \<open>
  \<^verbatim>\<open>
  const getEventComponent = (event: TimelineEvent): Component | null => {
    switch (event.type) {
      case 'USER_INPUT': return UserInputEvent
      case 'SKILL_CHECK': return SkillCheckEvent
      case 'COMBAT_ATTACK':
      case 'COMBAT_DAMAGE': return CombatEvent
      case 'ITEM_ADDED':
      case 'ITEM_CRAFTED': return ItemEvent
      case 'CURRENCY_CHANGE': return CurrencyEvent
      case 'SYSTEM_LOG': return SystemLogEvent
      case 'NARRATIVE': return NarrativeEvent
      default: return null
    }
  }
  \<close>
  \<open>None\<close> is \<open>null\<close>; the template renders an event only under
  \<open>v-if="getEventComponent(event)"\<close>.
\<close>

datatype Component =
  UserInputEvent | SkillCheckEvent | CombatEvent | ItemEvent | CurrencyEvent | SystemLogEvent
  | NarrativeEvent

definition getEventComponent :: "'m TimelineEvent \<Rightarrow> Component option" where
  "getEventComponent event =
     (if type event = ''USER_INPUT'' then Some UserInputEvent
      else if type event = ''SKILL_CHECK'' then Some SkillCheckEvent
      else if type event = ''COMBAT_ATTACK'' \<or> type event = ''COMBAT_DAMAGE'' then Some CombatEvent
      else if type event = ''ITEM_ADDED'' \<or> type event = ''ITEM_CRAFTED'' then Some ItemEvent
      else if type event = ''CURRENCY_CHANGE'' then Some CurrencyEvent
      else if type event = ''SYSTEM_LOG'' then Some SystemLogEvent
      else if type event = ''NARRATIVE'' then Some NarrativeEvent
      else None)"

text \<open>
  String conversion of a content value, as \<open>+=\<close> with a string performs it: a string is
  itself, an array of choice objects is \<open>[object Object]\<close> once per element joined by commas,
  a missing value is \<open>undefined\<close>.
\<close>

fun join_objects :: "'a list \<Rightarrow> jsstring" where
  "join_objects [] = []"
| "join_objects [x] = js ''[object Object]''"
| "join_objects (x # y # ys) = js ''[object Object],'' @ join_objects (y # ys)"

fun to_string :: "content \<Rightarrow> jsstring" where
  "to_string (Text s) = s"
| "to_string (Choices cs) = join_objects cs"
| "to_string Undefined = js ''undefined''"

text \<open>The reactive state the stream handler works on: \<open>timeline\<close> and \<open>narrativeBuffer\<close>.\<close>

record 'm view =
  timeline :: "'m TimelineEvent list"
  narrativeBuffer :: jsstring

text \<open>
  \<^verbatim>\<open>
  const appendToTimeline = (content: string) => {
    const lastEvent = timeline.value[timeline.value.length - 1]
    if (lastEvent && lastEvent.type === 'NARRATIVE') {
      lastEvent.content += content
    } else {
      timeline.value.push({ type: 'NARRATIVE', timestamp: new Date().toISOString(), content: content })
    }
    scrollToBottom()
  }
  \<close>
  The clock reading \<open>new Date().toISOString()\<close> is the argument \<open>now\<close>; \<open>scrollToBottom\<close>
  touches only the scroll position of the page and is left out.
\<close>

definition appendToTimeline :: "jsstring \<Rightarrow> jsstring \<Rightarrow> 'm view \<Rightarrow> 'm view" where
  "appendToTimeline now c v =
     (let tl = timeline v in
      if tl \<noteq> [] \<and> type (last tl) = ''NARRATIVE''
      then v\<lparr>timeline := butlast tl @ [(last tl)\<lparr>content := Text (to_string (content (last tl)) @ c)\<rparr>]\<rparr>
      else v\<lparr>timeline := tl @ [\<lparr>type = ''NARRATIVE'', timestamp = now, content = Text c,
                                  icon = None, metadata = None\<rparr>]\<rparr>)"

text \<open>
  \<^verbatim>\<open>
  const flushNarrativeBuffer = (force = false) => {
    let text = narrativeBuffer.value
    if (!text) return
    if (!force) {
      const openTag = text.lastIndexOf('<<')
      const closeTag = text.lastIndexOf('>>')
      if (openTag !== -1 && closeTag < openTag) {
        if (openTag > 0) {
          const safeChunk = text.substring(0, openTag)
          appendToTimeline(safeChunk)
          narrativeBuffer.value = text.substring(openTag)
        }
        return // Wait for more data
      }
    }
    const tagRegex = /<<\s*SPEAKER\s*:\s*(.*?)\s*>>/gi
    let match
    while ((match = tagRegex.exec(text)) !== null) { ... console.log ... }
    text = text.replace(/<<\s*SPEAKER\s*:\s*(.*?)\s*>>/gi, '')
    if (text) { appendToTimeline(text) }
    narrativeBuffer.value = ''
  }
  \<close>
  The \<open>exec\<close> loop only logs each speaker name; it changes neither the text nor the state.
\<close>

definition flushNarrativeBuffer :: "jsstring \<Rightarrow> bool \<Rightarrow> 'm view \<Rightarrow> 'm view" where
  "flushNarrativeBuffer now force v =
     (let text = narrativeBuffer v in
      if text = [] then v
      else
        let openTag = lastIndexOf text (js ''<<'');
            closeTag = lastIndexOf text (js ''>>'')
        in if \<not> force \<and> openTag \<noteq> - 1 \<and> closeTag < openTag then
             (if openTag > 0 then
                (appendToTimeline now (take (nat openTag) text) v)
                  \<lparr>narrativeBuffer := drop (nat openTag) text\<rparr>
              else v)
           else
             let text' = replace_tags text
             in (if text' \<noteq> [] then appendToTimeline now text' v else v)\<lparr>narrativeBuffer := []\<rparr>)"

text \<open>
  A parsed frame of the event stream (\<open>data: any\<close>), with the fields the handler reads.
  \<open>details\<close> and \<open>error\<close> are strings when present.
\<close>

record 'm frame =
  data_type :: string
  data_content :: content
  data_icon :: "jsstring option"
  data_metadata :: "'m option"
  data_details :: "jsstring option"
  data_error :: "jsstring option"

definition mechanical_types :: "string list" where
  "mechanical_types =
     [''SKILL_CHECK'', ''COMBAT_ATTACK'', ''COMBAT_DAMAGE'', ''COMBAT_INFO'', ''COMBAT_TURN'',
      ''ITEM_ADDED'', ''ITEM_REMOVED'', ''ITEM_CRAFTED'', ''CURRENCY_CHANGE'', ''SYSTEM_LOG'']"

text \<open>\<open>data.details || data.error\<close> inside a template string: the first truthy one, as text.\<close>

definition details_or_error :: "'m frame \<Rightarrow> jsstring" where
  "details_or_error d =
     (case data_details d of
        Some x \<Rightarrow> if x \<noteq> [] then x else (case data_error d of Some e \<Rightarrow> e | None \<Rightarrow> js ''undefined'')
      | None \<Rightarrow> (case data_error d of Some e \<Rightarrow> e | None \<Rightarrow> js ''undefined''))"

definition push :: "'m TimelineEvent \<Rightarrow> 'm view \<Rightarrow> 'm view" where
  "push e v = v\<lparr>timeline := timeline v @ [e]\<rparr>"

text \<open>
  The event pushed for a frame of a mechanical type:
  \<^verbatim>\<open>{ type: data.type, timestamp: new Date().toISOString(), content: data.content,
    icon: data.icon, metadata: data.metadata }\<close>
\<close>

definition mechanical_event :: "jsstring \<Rightarrow> 'm frame \<Rightarrow> 'm TimelineEvent" where
  "mechanical_event pushed d =
     \<lparr>type = data_type d, timestamp = pushed, content = data_content d,
      icon = data_icon d, metadata = data_metadata d\<rparr>"

text \<open>
  \<open>handleStreamEvent\<close> (GameView.vue): a token goes to the buffer and a flush without
  force is tried; every other frame kind first forces the flush, then pushes its event; a
  frame of any other type is ignored. The clock is read in two places: \<open>now\<close> is the
  reading inside \<open>appendToTimeline\<close>, taken when the flush creates a \<open>NARRATIVE\<close> event,
  and \<open>pushed\<close> is the later reading in the object literal of the pushed event.
\<close>

definition handleStreamEvent :: "jsstring \<Rightarrow> jsstring \<Rightarrow> 'm frame \<Rightarrow> 'm view \<Rightarrow> 'm view" where
  "handleStreamEvent now pushed d v =
     (if data_type d = ''token'' then
        flushNarrativeBuffer now False (v\<lparr>narrativeBuffer := narrativeBuffer v @ to_string (data_content d)\<rparr>)
      else if data_type d \<in> set mechanical_types then
        push (mechanical_event pushed d) (flushNarrativeBuffer now True v)
      else if data_type d = ''system_log'' then
        push \<lparr>type = ''SYSTEM_LOG'', timestamp = pushed, content = data_content d,
              icon = data_icon d, metadata = None\<rparr>
          (flushNarrativeBuffer now True v)
      else if data_type d = ''choices'' then
        push \<lparr>type = ''CHOICE'', timestamp = pushed, content = data_content d,
              icon = None, metadata = None\<rparr>
          (flushNarrativeBuffer now True v)
      else if data_type d = ''error'' then
        push \<lparr>type = ''SYSTEM_LOG'', timestamp = pushed,
              content = Text (js ''Error: '' @ details_or_error d),
              icon = Some [0x274C], metadata = None\<rparr>
          (flushNarrativeBuffer now True v)
      else v)"

text \<open>
  The stream part of \<open>executeTurn\<close>: every parsed frame goes through \<open>handleStreamEvent\<close>
  in order of arrival, each with the two clock readings of its handling, and at the end of
  the stream a buffer that is not empty is flushed with force.
\<close>

fun handle_frames :: "(jsstring \<times> jsstring \<times> 'm frame) list \<Rightarrow> 'm view \<Rightarrow> 'm view" where
  "handle_frames [] v = v"
| "handle_frames ((now, pushed, d) # fs) v = handle_frames fs (handleStreamEvent now pushed d v)"

definition executeTurn :: "(jsstring \<times> jsstring \<times> 'm frame) list \<Rightarrow> jsstring \<Rightarrow> 'm view \<Rightarrow> 'm view" where
  "executeTurn frames end_time v =
     (let v' = handle_frames frames v in
      if narrativeBuffer v' \<noteq> [] then flushNarrativeBuffer end_time True v' else v')"

definition token :: "jsstring \<Rightarrow> 'm frame" where
  "token s = \<lparr>data_type = ''token'', data_content = Text s, data_icon = None,
              data_metadata = None, data_details = None, data_error = None\<rparr>"

section \<open>The narrative renderer\<close>





section \<open>Restoring the history\<close>

text \<open>
  \<^verbatim>\<open>
  async restoreHistory(sessionId: string, timestamp: string): Promise<void> {
      await api.post(`/gamesession/history/${sessionId}/restore`, { timestamp })
  }
  \<close>
  The server is a function from the request to its response (\<open>RestoreHistoryResponse\<close> of
  \<open>services/api\<close>), \<open>None\<close> when the request fails and \<open>api.post\<close> throws. The wrapper
  awaits the response and resolves to nothing.
\<close>

datatype http_method = GET | POST

record request =
  http_method :: http_method
  url :: jsstring
  body :: "(string \<times> jsstring) list"

record RestoreHistoryResponse =
  message :: jsstring
  restored_to_index :: int
  remaining_messages_count :: int

datatype api_error = RequestFailed

definition restore_request :: "jsstring \<Rightarrow> jsstring \<Rightarrow> request" where
  "restore_request sessionId ts =
     \<lparr>http_method = POST, url = js ''/gamesession/history/'' @ sessionId @ js ''/restore'',
      body = [(''timestamp'', ts)]\<rparr>"

definition restoreHistory ::
  "(request \<Rightarrow> RestoreHistoryResponse option) \<Rightarrow> jsstring \<Rightarrow> jsstring \<Rightarrow> api_error + unit" where
  "restoreHistory server sessionId ts =
     (case server (restore_request sessionId ts) of
        None \<Rightarrow> Inl RequestFailed
      | Some response \<Rightarrow> Inr ())"

text \<open>
  The restore dialog of the game view. An event's restore button emits the event's
  \<open>timestamp\<close>, which \<open>restoreFrom\<close> stores; \<open>confirmRestore\<close> does nothing without a
  stored timestamp, and otherwise calls \<open>restoreHistory\<close> with it. After a successful call
  the view reloads history and character from the server (both catch their own errors),
  closes the dialog and clears the target; a failed call is caught and leaves both as they
  were. The reloads and the \<open>loading\<close> flag are left out.
\<close>

record restore_dialog =
  showRestoreModal :: bool
  restoreTargetTimestamp :: "jsstring option"

definition restoreFrom :: "jsstring \<Rightarrow> restore_dialog \<Rightarrow> restore_dialog" where
  "restoreFrom ts ui = ui\<lparr>restoreTargetTimestamp := Some ts, showRestoreModal := True\<rparr>"

definition confirmRestore ::
  "(request \<Rightarrow> RestoreHistoryResponse option) \<Rightarrow> jsstring \<Rightarrow> restore_dialog \<Rightarrow> restore_dialog" where
  "confirmRestore server sessionId ui =
     (case restoreTargetTimestamp ui of
        None \<Rightarrow> ui
      | Some ts \<Rightarrow>
          if ts = [] then ui
          else (case restoreHistory server sessionId ts of
                  Inl e \<Rightarrow> ui
                | Inr u \<Rightarrow> ui\<lparr>showRestoreModal := False, restoreTargetTimestamp := None\<rparr>))"

text \<open>Two servers that answer every request, with different indices restored to.\<close>

definition server_a :: "request \<Rightarrow> RestoreHistoryResponse option" where
  "server_a req = Some \<lparr>message = js ''ok'', restored_to_index = 3, remaining_messages_count = 4\<rparr>"

definition server_b :: "request \<Rightarrow> RestoreHistoryResponse option" where
  "server_b req = Some \<lparr>message = js ''ok'', restored_to_index = 7, remaining_messages_count = 8\<rparr>"

text \<open>The number of places where two \<open>NARRATIVE\<close> events stand next to each other.\<close>

fun adjacent_narratives :: "'m TimelineEvent list \<Rightarrow> nat" where
  "adjacent_narratives [] = 0"
| "adjacent_narratives [x] = 0"
| "adjacent_narratives (x # y # ys) =
     (if type x = ''NARRATIVE'' \<and> type y = ''NARRATIVE'' then 1 else 0) + adjacent_narratives (y # ys)"


abbreviation gt :: jschar where
  "gt \<equiv> cu CHR ''>''"

abbreviation GT :: node where
  "GT \<equiv> Single (lit CHR ''>'')"

section \<open>Properties of tool results and skill checks\<close>

text \<open>
  C10. \<open>isSuccess\<close> is a total function with four outcomes: \<open>false\<close> for undefined,
  null, every boolean, number, string and function (the falsy values and the values that
  are not objects); for an object with a \<open>success\<close> key the value stored under that key,
  whatever it is; \<open>false\<close> for an object with an \<open>error\<close> key and no \<open>success\<close> key;
  \<open>true\<close> for every other object, the empty object and arrays included.
\<close>

theorem isSuccess_cases:
  "isSuccess JUndefined = JBool False \<and> isSuccess JNull = JBool False
   \<and> isSuccess (JBool b) = JBool False \<and> isSuccess (JNumber n) = JBool False
   \<and> isSuccess (JString s) = JBool False \<and> isSuccess JFunction = JBool False
   \<and> (map_of ps ''success'' = Some x \<longrightarrow> isSuccess (JObject ps) = x)
   \<and> (map_of ps ''success'' = None \<and> map_of ps ''error'' \<noteq> None \<longrightarrow> isSuccess (JObject ps) = JBool False)
   \<and> (map_of ps ''success'' = None \<and> map_of ps ''error'' = None \<longrightarrow> isSuccess (JObject ps) = JBool True)
   \<and> isSuccess (JObject []) = JBool True
   \<and> isSuccess (JArray xs) = JBool True"
proof -
  have k: "(k \<in> fst ` set ps) = (map_of ps k \<noteq> None)" for k
    by (simp add: map_of_eq_None_iff)
  show ?thesis
    by (auto simp: isSuccess_def k)
qed

theorem isSuccess_cases_witness:
  "isSuccess (JObject [(''success'', JBool False), (''roll'', JNumber (NonZero 55))]) = JBool False
   \<and> isSuccess (JObject [(''success'', JBool True), (''error'', JNull)]) = JBool True
   \<and> isSuccess (JObject [(''success'', JString (js ''yes''))]) = JString (js ''yes'')
   \<and> isSuccess (JObject [(''error'', JString (js ''boom''))]) = JBool False
   \<and> isSuccess (JObject [(''roll'', JNumber (NonZero 55))]) = JBool True"
  using isSuccess_cases [where ps = "[(''success'', JBool False), (''roll'', JNumber (NonZero 55))]" and x = "JBool False"]
    isSuccess_cases [where ps = "[(''success'', JBool True), (''error'', JNull)]" and x = "JBool True"]
    isSuccess_cases [where ps = "[(''success'', JString (js ''yes''))]" and x = "JString (js ''yes'')"]
    isSuccess_cases [where ps = "[(''error'', JString (js ''boom''))]"]
    isSuccess_cases [where ps = "[(''roll'', JNumber (NonZero 55))]"]
  by simp

text \<open>
  C7. For all stat, rank and difficulty the target lies in \<open>[1, 99]\<close>, and for the same
  stat and rank the favorable target is at least the normal one, which is at least the
  unfavorable one.
\<close>

theorem compute_target_clamped_monotone:
  "1 \<le> compute_target s k d \<and> compute_target s k d \<le> 99
   \<and> compute_target s k Unfavorable \<le> compute_target s k Normal
   \<and> compute_target s k Normal \<le> compute_target s k Favorable"
  by (cases d) (auto simp: compute_target_def)

text \<open>
  C8. Whenever the resolver returns a result, success holds iff \<open>roll <= target\<close> (a roll
  equal to the target succeeds) and the margin is \<open>target - roll\<close>; stat 14, rank 2, normal
  difficulty has target 62, and roll 55 succeeds with margin 7.
\<close>

theorem resolve_success_margin:
  "(resolve s k d r = Inr res \<longrightarrow>
      (success res \<longleftrightarrow> roll res \<le> target res) \<and> margin res = target res - roll res
      \<and> roll res = r \<and> target res = compute_target s k d)
   \<and> (0 \<le> k \<longrightarrow> (\<exists>res. resolve s k d (compute_target s k d) = Inr res \<and> success res))
   \<and> resolve 14 2 Normal 55 = Inr \<lparr>target = 62, roll = 55, success = True, margin = 7\<rparr>"
  by (auto simp: resolve_def Let_def compute_target_def)

theorem resolve_success_margin_witness:
  "resolve 14 2 Normal 62 = Inr \<lparr>target = 62, roll = 62, success = True, margin = 0\<rparr>
   \<and> (success \<lparr>target = 62, roll = 62, success = True, margin = 0\<rparr> \<longleftrightarrow> (62::int) \<le> 62)
   \<and> (\<exists>res. resolve 14 2 Normal (compute_target 14 2 Normal) = Inr res \<and> success res)"
  using resolve_success_margin [of 14 2 Normal 62 "\<lparr>target = 62, roll = 62, success = True, margin = 0\<rparr>"]
  by (simp add: resolve_def compute_target_def)

section \<open>Properties of the tag pattern\<close>

text \<open>A pattern that ends in \<open>>>\<close> matches only up to an occurrence of \<open>>>\<close>.\<close>

lemma rmatch_needs_close:
  "rmatch r u = Some rest \<Longrightarrow> r = r0 @ [GT, GT] \<Longrightarrow> \<exists>pre. u = pre @ [cu CHR ''>'', cu CHR ''>''] @ rest"
proof (induction r u arbitrary: rest r0 rule: rmatch.induct)
  case (1 s)
  then show ?case by simp
next
  case (2 p r)
  from 2(1) show ?case by simp
next
  case (3 p r c cs)
  show ?case
  proof (cases r0)
    case Nil
    with 3 show ?thesis
      by (cases cs) (auto simp: lit_def split: if_splits)
  next
    case (Cons x xs)
    with 3 have "p c" and m: "rmatch r cs = Some rest" and r: "r = xs @ [GT, GT]"
      by (auto split: if_splits)
    from 3(1)[OF \<open>p c\<close> m r] obtain pre where "cs = pre @ [cu CHR ''>'', cu CHR ''>''] @ rest" by blast
    then have "c # cs = (c # pre) @ [cu CHR ''>'', cu CHR ''>''] @ rest" by simp
    then show ?thesis by blast
  qed
next
  case (4 p r)
  from 4(3) obtain xs where r: "r = xs @ [GT, GT]" by (cases r0) auto
  from 4(2) have "rmatch r [] = Some rest" by simp
  from 4(1)[OF this r] show ?case .
next
  case (5 p r c cs)
  from 5(5) obtain xs where r0: "r0 = Star p # xs" and r: "r = xs @ [GT, GT]" by (cases r0) auto
  show ?case
  proof (cases "p c \<and> rmatch (Star p # r) cs \<noteq> None")
    case True
    with 5(4) have m: "rmatch (Star p # r) cs = Some rest" by auto
    from True 5(1)[OF _ m 5(5)] obtain pre where "cs = pre @ [cu CHR ''>'', cu CHR ''>''] @ rest" by blast
    then have "c # cs = (c # pre) @ [cu CHR ''>'', cu CHR ''>''] @ rest" by simp
    then show ?thesis by blast
  next
    case False
    with 5(4) have m: "rmatch r (c # cs) = Some rest" by (auto split: if_splits)
    show ?thesis
    proof (cases "p c")
      case True
      with False have "rmatch (Star p # r) cs = None" by simp
      from 5(2)[OF True this m r] show ?thesis .
    next
      case F: False
      from 5(3)[OF F m r] show ?thesis .
    qed
  qed
next
  case (6 p r)
  from 6(3) obtain xs where r: "r = xs @ [GT, GT]" by (cases r0) auto
  from 6(2) have "rmatch r [] = Some rest" by simp
  from 6(1)[OF this r] show ?case .
next
  case (7 p r c cs)
  from 7(4) obtain xs where r0: "r0 = LazyStar p # xs" and r: "r = xs @ [GT, GT]" by (cases r0) auto
  show ?case
  proof (cases "rmatch r (c # cs)")
    case (Some a)
    with 7(3) have m: "rmatch r (c # cs) = Some rest" by simp
    from 7(1)[OF m r] show ?thesis .
  next
    case None
    with 7(3) have pc: "p c" and m: "rmatch (LazyStar p # r) cs = Some rest" by (auto split: if_splits)
    from 7(2)[OF None pc m 7(4)] obtain pre where "cs = pre @ [cu CHR ''>'', cu CHR ''>''] @ rest" by blast
    then have "c # cs = (c # pre) @ [cu CHR ''>'', cu CHR ''>''] @ rest" by simp
    then show ?thesis by blast
  qed
qed

lemma rmatch_append:
  assumes "\<And>r'. suffix r' r \<Longrightarrow> r' \<noteq> [] \<Longrightarrow> rmatch r' t = None \<and> rmatch r' [] = None"
  shows "rmatch r (s @ t) = map_option (\<lambda>x. x @ t) (rmatch r s)"
  using assms
proof (induction r s rule: rmatch.induct)
  case (1 s)
  then show ?case by simp
next
  case (2 p r)
  from 2[of "Single p # r"] show ?case by simp
next
  case (3 p r c cs)
  have "rmatch r (cs @ t) = map_option (\<lambda>x. x @ t) (rmatch r cs)" if "p c"
    using that 3 by (simp add: suffix_ConsI)
  then show ?case by simp
next
  case (4 p r)
  from 4(2)[of "Star p # r"] show ?case by simp
next
  case (5 p r c cs)
  show ?case
  proof (cases "p c")
    case True
    have a: "rmatch (Star p # r) (cs @ t) = map_option (\<lambda>x. x @ t) (rmatch (Star p # r) cs)"
      using True 5 by simp
    show ?thesis
    proof (cases "rmatch (Star p # r) cs")
      case None
      have "rmatch r (c # cs @ t) = map_option (\<lambda>x. x @ t) (rmatch r (c # cs))"
        using 5(2)[OF True None] 5(4) by (simp add: suffix_ConsI)
      with a None True show ?thesis by simp
    next
      case (Some x)
      with a True show ?thesis by simp
    qed
  next
    case False
    have "rmatch r (c # cs @ t) = map_option (\<lambda>x. x @ t) (rmatch r (c # cs))"
      using 5(3)[OF False] 5(4) by (simp add: suffix_ConsI)
    with False show ?thesis by simp
  qed
next
  case (6 p r)
  from 6(2)[of "LazyStar p # r"] show ?case by simp
next
  case (7 p r c cs)
  have b: "rmatch r (c # cs @ t) = map_option (\<lambda>x. x @ t) (rmatch r (c # cs))"
    using 7 by (simp add: suffix_ConsI)
  have a: "rmatch (LazyStar p # r) (cs @ t) = map_option (\<lambda>x. x @ t) (rmatch (LazyStar p # r) cs)"
    if "p c" "rmatch r (c # cs) = None"
    using that 7 by simp
  show ?case using a b by (auto split: option.splits)
qed

lemma tagRegex_ends: "tagRegex = butlast (butlast tagRegex) @ [GT, GT]"
  by (simp add: tagRegex_def)

lemma suffix_two:
  assumes "suffix r' (r0 @ [a, b])" "r' \<noteq> []"
  shows "r' = [b] \<or> (\<exists>r1. r' = r1 @ [a, b])"
proof -
  from assms(1) consider "suffix r' [a, b]" | zs where "r' = zs @ [a, b]"
    by (auto simp: suffix_append)
  then show ?thesis
  proof cases
    case 1
    then have "r' = [] \<or> r' = [b] \<or> r' = [a, b]"
      by (auto simp: suffix_Cons)
    with assms(2) show ?thesis by auto
  next
    case 2
    then show ?thesis by blast
  qed
qed

lemma tag_suffix_None:
  assumes "\<not> sublist (js ''>>'') t" "\<not> prefix (js ''>'') t" "suffix r' tagRegex" "r' \<noteq> []"
  shows "rmatch r' t = None \<and> rmatch r' [] = None"
proof -
  from assms(3) have "suffix r' (butlast (butlast tagRegex) @ [GT, GT])"
    using tagRegex_ends by simp
  from suffix_two[OF this assms(4)] show ?thesis
  proof
    assume "r' = [GT]"
    with assms(2) show ?thesis
      by (cases t) (auto simp: lit_def js_def)
  next
    assume "\<exists>r1. r' = r1 @ [GT, GT]"
    then obtain r1 where r': "r' = r1 @ [GT, GT]" ..
    have "rmatch r' u = None" if "\<not> sublist (js ''>>'') u" for u
    proof (cases "rmatch r' u")
      case (Some rest)
      from rmatch_needs_close[OF Some r'] obtain pre where "u = pre @ js ''>>'' @ rest"
        by (auto simp: js_def)
      then have "sublist (js ''>>'') u" by (auto simp: sublist_def)
      with that show ?thesis by simp
    qed simp
    from this[of t] this[of "[]"] assms(1) show ?thesis by (simp add: js_def)
  qed
qed

lemma tag_append:
  assumes "\<not> sublist (js ''>>'') t" "\<not> prefix (js ''>'') t"
  shows "rmatch tagRegex (s @ t) = map_option (\<lambda>x. x @ t) (rmatch tagRegex s)"
  by (rule rmatch_append) (rule tag_suffix_None[OF assms])

lemma replace_tags_no_tag:
  "(\<And>u. suffix u s \<Longrightarrow> rmatch tagRegex u = None) \<Longrightarrow> replace_tags s = s"
  by (induction s) (simp_all add: suffix_ConsI)

lemma replace_tags_no_close:
  assumes "\<not> sublist (js ''>>'') t"
  shows "replace_tags t = t"
proof (rule replace_tags_no_tag)
  fix u assume u: "suffix u t"
  show "rmatch tagRegex u = None"
  proof (cases "rmatch tagRegex u")
    case (Some rest)
    from rmatch_needs_close[OF Some tagRegex_ends] obtain pre where "u = pre @ js ''>>'' @ rest"
      by (auto simp: js_def)
    then have "sublist (js ''>>'') u" by (auto simp: sublist_def)
    with u have "sublist (js ''>>'') t"
      by (meson sublist_order.order_trans suffix_imp_sublist)
    with assms show ?thesis by simp
  qed simp
qed

lemma replace_tags_open_tail:
  assumes "\<not> sublist (js ''>>'') t" "\<not> prefix (js ''>'') t"
  shows "replace_tags (s @ t) = replace_tags s @ t"
proof (induction s rule: replace_tags.induct)
  case 1
  show ?case using replace_tags_no_close[OF assms(1)] by simp
next
  case (2 c cs)
  have "rmatch tagRegex (c # cs @ t) = map_option (\<lambda>x. x @ t) (rmatch tagRegex (c # cs))"
    using tag_append[OF assms, of "c # cs"] by simp
  with 2 show ?case by (auto split: option.splits)
qed

lemma replace_tags_leftmost:
  assumes "\<And>u. suffix u pre \<Longrightarrow> u \<noteq> [] \<Longrightarrow> rmatch tagRegex (u @ w) = None"
  shows "replace_tags (pre @ w) = pre @ replace_tags w"
  using assms
proof (induction pre)
  case Nil
  show ?case by simp
next
  case (Cons c cs)
  have "rmatch tagRegex (c # cs @ w) = None" using Cons(2)[of "c # cs"] by simp
  moreover have "replace_tags (cs @ w) = cs @ replace_tags w"
    using Cons by (simp add: suffix_ConsI)
  ultimately show ?case by simp
qed

lemma replace_tags_match: "rmatch tagRegex w = Some rest \<Longrightarrow> replace_tags w = replace_tags rest"
  by (cases w) (simp_all add: tagRegex_def)

text \<open>A tag written \<open><<SPEAKER:name>>\<close>, the name on one line and free of \<open>>\<close>, matches the pattern.\<close>

lemma gt_not_ws: "\<not> is_ws gt"
  by (simp add: is_ws_def cu_def)

lemma close_after_ws:
  assumes "gt \<notin> set m"
  shows "rmatch [Star is_ws, GT, GT] (m @ gt # gt # rest) = None
       \<or> rmatch [Star is_ws, GT, GT] (m @ gt # gt # rest) = Some rest"
  using assms
proof (induction m)
  case Nil
  show ?case by (simp add: gt_not_ws lit_def)
next
  case (Cons c m)
  then have c: "c \<noteq> gt" and ih: "rmatch [Star is_ws, GT, GT] (m @ gt # gt # rest) = None
       \<or> rmatch [Star is_ws, GT, GT] (m @ gt # gt # rest) = Some rest" by auto
  from c have "rmatch [GT, GT] (c # m @ gt # gt # rest) = None" by (simp add: lit_def)
  with ih show ?case by (auto split: option.splits)
qed

lemma name_then_close:
  assumes "\<forall>c\<in>set name. is_dot c \<and> c \<noteq> gt"
  shows "rmatch [LazyStar is_dot, Star is_ws, GT, GT] (name @ gt # gt # rest) = Some rest"
  using assms
proof (induction name)
  case Nil
  show ?case by (simp add: gt_not_ws lit_def)
next
  case (Cons c name)
  then have ih: "rmatch [LazyStar is_dot, Star is_ws, GT, GT] (name @ gt # gt # rest) = Some rest"
    and d: "is_dot c" and g: "gt \<notin> set (c # name)" by auto
  from close_after_ws[OF g, of rest] ih d show ?case
    by (auto split: option.splits)
qed

lemma ws_name_then_close:
  assumes "\<forall>c\<in>set name. is_dot c \<and> c \<noteq> gt"
  shows "rmatch [Star is_ws, LazyStar is_dot, Star is_ws, GT, GT] (name @ gt # gt # rest) = Some rest"
  using assms
proof (induction name)
  case Nil
  from name_then_close[of "[]" rest] show ?case by (simp add: gt_not_ws)
next
  case (Cons c name)
  let ?R = "[LazyStar is_dot, Star is_ws, GT, GT]"
  let ?s = "name @ gt # gt # rest"
  from Cons have ih: "rmatch (Star is_ws # ?R) ?s = Some rest"
    by simp
  have a: "rmatch ?R (c # ?s) = Some rest"
    using name_then_close[OF Cons.prems, of rest] by simp
  have "rmatch (Star is_ws # ?R) (c # ?s) =
      (if is_ws c then (case rmatch (Star is_ws # ?R) ?s of Some x \<Rightarrow> Some x | None \<Rightarrow> rmatch ?R (c # ?s))
       else rmatch ?R (c # ?s))"
    by (rule rmatch.simps)
  also have "\<dots> = Some rest"
    by (simp only: ih a option.case if_cancel)
  finally show ?case by simp
qed

lemma speaker_tag_matches:
  assumes "\<forall>c\<in>set name. is_dot c \<and> c \<noteq> gt"
  shows "rmatch tagRegex (js ''<<SPEAKER:'' @ name @ js ''>>'' @ rest) = Some rest"
  using ws_name_then_close[OF assms, of rest]
  by (simp add: tagRegex_def js_def lit_def ci_def cu_def is_ws_def)

section \<open>Properties of the timeline\<close>

lemmas cls = tagRegex_def lit_def ci_def cu_def is_ws_def is_dot_def js_def

lemma append_buffer [simp]:
  "appendToTimeline t c (v\<lparr>narrativeBuffer := b\<rparr>) = (appendToTimeline t c v)\<lparr>narrativeBuffer := b\<rparr>"
  by (simp add: appendToTimeline_def Let_def)

lemma append_keeps_buffer [simp]: "narrativeBuffer (appendToTimeline t c v) = narrativeBuffer v"
  by (simp add: appendToTimeline_def Let_def)

lemma append_twice:
  "appendToTimeline t2 b (appendToTimeline t1 a v) = appendToTimeline t1 (a @ b) v"
  by (cases "timeline v" rule: rev_cases) (auto simp: appendToTimeline_def Let_def butlast_append)

lemma adjacent_snoc:
  "adjacent_narratives (xs @ [y]) =
     adjacent_narratives xs + (if xs \<noteq> [] \<and> type (last xs) = ''NARRATIVE'' \<and> type y = ''NARRATIVE'' then 1 else 0)"
  by (induction xs rule: adjacent_narratives.induct) auto

lemma flush_force:
  "flushNarrativeBuffer now True v =
     (if replace_tags (narrativeBuffer v) = [] then v\<lparr>narrativeBuffer := []\<rparr>
      else (appendToTimeline now (replace_tags (narrativeBuffer v)) v)\<lparr>narrativeBuffer := []\<rparr>)"
  by (cases v) (simp add: flushNarrativeBuffer_def Let_def)

lemma no_tag_before:
  assumes "\<forall>i<length pre. rmatch tagRegex (drop i (pre @ w)) = None" "suffix u pre" "u \<noteq> []"
  shows "rmatch tagRegex (u @ w) = None"
proof -
  from assms(2) obtain q where q: "pre = q @ u" by (auto simp: suffix_def)
  with assms(3) have "length q < length pre" by simp
  with assms(1) have "rmatch tagRegex (drop (length q) (pre @ w)) = None" by blast
  with q show ?thesis by simp
qed














section \<open>The claims about the game view\<close>

text \<open>
  C1. The token frames \<open>Hello <<SPE\<close> and \<open>AKER:Mara>> there\<close>, handled in this order
  from an empty buffer: after the first frame only \<open>Hello \<close> has reached the timeline and
  the partial tag waits in the buffer; after the second frame, and after the end-of-stream
  flush, the timeline is what one append of exactly \<open>Hello  there\<close> gives (both spaces
  kept, the tag gone) and the buffer is empty.
\<close>

theorem speaker_tag_split_in_two:
  "narrativeBuffer v = [] \<Longrightarrow>
     handle_frames [(t1, u1, token (js ''Hello <<SPE''))] v
       = (appendToTimeline t1 (js ''Hello '') v)\<lparr>narrativeBuffer := js ''<<SPE''\<rparr>
   \<and> handle_frames [(t1, u1, token (js ''Hello <<SPE'')), (t2, u2, token (js ''AKER:Mara>> there''))] v
       = appendToTimeline t1 (js ''Hello  there'') v
   \<and> executeTurn [(t1, u1, token (js ''Hello <<SPE'')), (t2, u2, token (js ''AKER:Mara>> there''))] t3 v
       = appendToTimeline t1 (js ''Hello  there'') v"
proof -
  assume e: "narrativeBuffer v = []"
  let ?v1 = "(appendToTimeline t1 (js ''Hello '') v)\<lparr>narrativeBuffer := js ''<<SPE''\<rparr>"
  have a: "handleStreamEvent t1 u1 (token (js ''Hello <<SPE'')) v = ?v1"
    using e by (simp add: handleStreamEvent_def token_def flushNarrativeBuffer_def lastIndexOf_def js_def cu_def Let_def)
  have r: "replace_tags (js ''<<SPEAKER:Mara>> there'') = js '' there''"
    by (simp add: cls)
  have "handleStreamEvent t2 u2 (token (js ''AKER:Mara>> there'')) ?v1
      = (appendToTimeline t2 (js '' there'') (appendToTimeline t1 (js ''Hello '') v))\<lparr>narrativeBuffer := []\<rparr>"
    using r by (simp add: handleStreamEvent_def token_def flushNarrativeBuffer_def lastIndexOf_def js_def cu_def Let_def)
  also have "\<dots> = (appendToTimeline t1 (js ''Hello  there'') v)\<lparr>narrativeBuffer := []\<rparr>"
    by (simp add: append_twice js_def)
  also have "\<dots> = appendToTimeline t1 (js ''Hello  there'') v"
    using e by (simp add: appendToTimeline_def Let_def)
  finally have b: "handleStreamEvent t2 u2 (token (js ''AKER:Mara>> there'')) ?v1 = appendToTimeline t1 (js ''Hello  there'') v" .
  show ?thesis using a b e by (simp add: executeTurn_def)
qed

text \<open>C1 on an empty timeline: one \<open>NARRATIVE\<close> event with content \<open>Hello  there\<close>.\<close>

theorem speaker_tag_split_in_two_witness:
  "executeTurn [(js ''10:00:01'', js ''10:00:01'', token (js ''Hello <<SPE'')),
                (js ''10:00:02'', js ''10:00:02'', token (js ''AKER:Mara>> there''))]
      (js ''10:00:03'') (\<lparr>timeline = [], narrativeBuffer = []\<rparr> :: unit view)
   = \<lparr>timeline = [\<lparr>type = ''NARRATIVE'', timestamp = js ''10:00:01'', content = Text (js ''Hello  there''),
                     icon = None, metadata = None\<rparr>],
      narrativeBuffer = []\<rparr>"
  using speaker_tag_split_in_two [where v = "\<lparr>timeline = [], narrativeBuffer = []\<rparr> :: unit view"
      and ?t1.0 = "js ''10:00:01''" and ?u1.0 = "js ''10:00:01''" and ?t2.0 = "js ''10:00:02''"
      and ?u2.0 = "js ''10:00:02''" and ?t3.0 = "js ''10:00:03''"]
  by (simp add: appendToTimeline_def)

text \<open>
  C2 asks that no chunk appended by a flush without force holds a SPEAKER tag, split or
  complete. The handler run on two inputs: the tokens \<open><<SPEAKER:Ma\<close>, \<open>ra>> hi <<SP\<close>
  append the chunk \<open><<SPEAKER:Mara>> hi \<close>, at whose start the tag pattern matches (the
  text before the last \<open><<\<close> is appended without the replacement); the tokens \<open>Hello <\<close>,
  \<open><SPEAKER:Mara>> there\<close> append the two halves of a tag cut between its two \<open><\<close>.
\<close>

theorem safe_chunk_keeps_complete_tag:
  "handle_frames [(t1, u1, token (js ''<<SPEAKER:Ma'')), (t2, u2, token (js ''ra>> hi <<SP''))]
     \<lparr>timeline = [], narrativeBuffer = []\<rparr>
   = \<lparr>timeline = [\<lparr>type = ''NARRATIVE'', timestamp = t2, content = Text (js ''<<SPEAKER:Mara>> hi ''),
                     icon = None, metadata = None\<rparr>],
      narrativeBuffer = js ''<<SP''\<rparr>
   \<and> rmatch tagRegex (js ''<<SPEAKER:Mara>> hi '') = Some (js '' hi '')
   \<and> handle_frames [(t1, u1, token (js ''Hello <'')), (t2, u2, token (js ''<SPEAKER:Mara>> there''))]
     \<lparr>timeline = [], narrativeBuffer = []\<rparr>
   = \<lparr>timeline = [\<lparr>type = ''NARRATIVE'', timestamp = t1, content = Text (js ''Hello <<SPEAKER:Mara>> there''),
                     icon = None, metadata = None\<rparr>],
      narrativeBuffer = []\<rparr>"
  by (simp add: handleStreamEvent_def token_def flushNarrativeBuffer_def lastIndexOf_def cls Let_def appendToTimeline_def)

text \<open>
  What the flush with force does for every buffer content: the buffer is empty afterwards, and
  the text appended to the timeline is the buffer after the replacement of the tag pattern
  (nothing is appended when that text is empty). The replacement removes the leftmost match
  of the pattern and goes on behind it, in particular a leftmost \<open><<SPEAKER:name>>\<close> whose
  name stays on one line and has no \<open>>\<close>; a buffer in which no tag starts is appended as
  it is; and a tail that opens with \<open><<\<close> and holds no \<open>>>\<close> passes through unchanged
  behind the replacement of what precedes it.
\<close>

lemma forced_flush_replaces:
  "narrativeBuffer (flushNarrativeBuffer now True v) = []
   \<and> flushNarrativeBuffer now True v =
       (if replace_tags (narrativeBuffer v) = [] then v\<lparr>narrativeBuffer := []\<rparr>
        else (appendToTimeline now (replace_tags (narrativeBuffer v)) v)\<lparr>narrativeBuffer := []\<rparr>)
   \<and> (narrativeBuffer v = pre @ w \<and> rmatch tagRegex w = Some rest
        \<and> (\<forall>i<length pre. rmatch tagRegex (drop i (pre @ w)) = None)
      \<longrightarrow> replace_tags (narrativeBuffer v) = pre @ replace_tags rest)
   \<and> (narrativeBuffer v = pre @ js ''<<SPEAKER:'' @ name @ js ''>>'' @ rest
        \<and> (\<forall>c\<in>set name. is_dot c \<and> c \<noteq> gt)
        \<and> (\<forall>i<length pre. rmatch tagRegex (drop i (narrativeBuffer v)) = None)
      \<longrightarrow> replace_tags (narrativeBuffer v) = pre @ replace_tags rest)
   \<and> ((\<forall>i<length (narrativeBuffer v). rmatch tagRegex (drop i (narrativeBuffer v)) = None)
      \<longrightarrow> replace_tags (narrativeBuffer v) = narrativeBuffer v)
   \<and> (narrativeBuffer v = p @ t \<and> prefix (js ''<<'') t \<and> \<not> sublist (js ''>>'') t
      \<longrightarrow> replace_tags (narrativeBuffer v) = replace_tags p @ t)"
proof -
  have a: "flushNarrativeBuffer now True v =
       (if replace_tags (narrativeBuffer v) = [] then v\<lparr>narrativeBuffer := []\<rparr>
        else (appendToTimeline now (replace_tags (narrativeBuffer v)) v)\<lparr>narrativeBuffer := []\<rparr>)"
    by (rule flush_force)
  then have b: "narrativeBuffer (flushNarrativeBuffer now True v) = []" by simp
  have c: "replace_tags (pre @ w) = pre @ replace_tags rest"
    if "rmatch tagRegex w = Some rest" "\<forall>i<length pre. rmatch tagRegex (drop i (pre @ w)) = None"
    using replace_tags_leftmost[of pre w] no_tag_before[OF that(2)] replace_tags_match[OF that(1)] by simp
  have d: "replace_tags s = s" if "\<forall>i<length s. rmatch tagRegex (drop i s) = None" for s
    using replace_tags_leftmost[of s "[]"] no_tag_before[of s "[]"] that by simp
  have e: "replace_tags (p @ t) = replace_tags p @ t" if "prefix (js ''<<'') t" "\<not> sublist (js ''>>'') t"
  proof (rule replace_tags_open_tail[OF that(2)])
    from that(1) show "\<not> prefix (js ''>'') t"
      by (auto simp: prefix_def js_def cu_def)
  qed
  have f: "replace_tags (pre @ js ''<<SPEAKER:'' @ name @ js ''>>'' @ rest) = pre @ replace_tags rest"
    if "\<forall>c\<in>set name. is_dot c \<and> c \<noteq> gt"
       "\<forall>i<length pre. rmatch tagRegex (drop i (pre @ js ''<<SPEAKER:'' @ name @ js ''>>'' @ rest)) = None"
    using replace_tags_leftmost[of pre "js ''<<SPEAKER:'' @ name @ js ''>>'' @ rest"]
      no_tag_before[OF that(2)] replace_tags_match[OF speaker_tag_matches[OF that(1), of rest]]
    by simp
  from a b c d e f show ?thesis by (simp cong: conj_cong)
qed





text \<open>
  C5, as the code has it: the dispatcher returns a renderer for the nine types it lists,
  and \<open>null\<close> for a \<open>CHOICE\<close> event (the choices are drawn by their own block of the
  template).
\<close>

theorem getEventComponent_renderers:
  "(type e \<in> {''USER_INPUT'', ''SKILL_CHECK'', ''COMBAT_ATTACK'', ''COMBAT_DAMAGE'', ''ITEM_ADDED'',
               ''ITEM_CRAFTED'', ''CURRENCY_CHANGE'', ''SYSTEM_LOG'', ''NARRATIVE''}
      \<longrightarrow> getEventComponent e \<noteq> None)
   \<and> (type e = ''CHOICE'' \<longrightarrow> getEventComponent e = None)"
  by (auto simp: getEventComponent_def)

text \<open>C5 on a \<open>COMBAT_DAMAGE\<close> event.\<close>

theorem getEventComponent_renderers_witness:
  "getEventComponent (\<lparr>type = ''COMBAT_DAMAGE'', timestamp = js ''10:00:02'', content = Text (js ''8 dmg''),
       icon = None, metadata = None\<rparr> :: unit TimelineEvent) \<noteq> None"
  using getEventComponent_renderers [of "\<lparr>type = ''COMBAT_DAMAGE'', timestamp = js ''10:00:02'',
       content = Text (js ''8 dmg''), icon = None, metadata = None\<rparr> :: unit TimelineEvent"]
  by simp

text \<open>
  C5 as stated (a renderer for every type of the closed set) fails: \<open>CHOICE\<close> is one of
  the types of \<open>TimelineEvent\<close> and the dispatcher returns \<open>null\<close> for it.
\<close>

theorem getEventComponent_counterexample:
  "''CHOICE'' \<in> set TimelineEvent_types
   \<and> getEventComponent \<lparr>type = ''CHOICE'', timestamp = js ''2024-05-01T10:00:00.000Z'',
        content = Choices [], icon = None, metadata = None\<rparr> = None"
  by (simp add: getEventComponent_def TimelineEvent_types_def)

text \<open>
  C6, as the code has it: the rollback request carries the timestamp of the target event
  and nothing else, the wrapper returns nothing whatever the server answers, and the
  dialog passes on the timestamp that the event's restore button emitted.
\<close>

theorem restoreHistory_by_timestamp:
  "body (restore_request sid ts) = [(''timestamp'', ts)]
   \<and> http_method (restore_request sid ts) = POST
   \<and> url (restore_request sid ts) = js ''/gamesession/history/'' @ sid @ js ''/restore''
   \<and> restoreHistory server sid ts =
        (if server (restore_request sid ts) = None then Inl RequestFailed else Inr ())
   \<and> confirmRestore server sid (restoreFrom ts ui) =
        (if ts = [] \<or> server (restore_request sid ts) = None then restoreFrom ts ui
         else ui\<lparr>showRestoreModal := False, restoreTargetTimestamp := None\<rparr>)"
  by (auto simp: restore_request_def restoreHistory_def confirmRestore_def restoreFrom_def split: option.splits)

text \<open>C6 on session \<open>s1\<close> and a server that answers.\<close>

theorem restoreHistory_by_timestamp_witness:
  "restoreHistory server_a (js ''s1'') (js ''2024-05-01T10:00:00.000Z'') = Inr ()
   \<and> confirmRestore server_a (js ''s1'')
         (restoreFrom (js ''2024-05-01T10:00:00.000Z'') \<lparr>showRestoreModal = False, restoreTargetTimestamp = None\<rparr>)
       = \<lparr>showRestoreModal = False, restoreTargetTimestamp = None\<rparr>"
  using restoreHistory_by_timestamp [of "js ''s1''" "js ''2024-05-01T10:00:00.000Z''" server_a
      "\<lparr>showRestoreModal = False, restoreTargetTimestamp = None\<rparr>"]
  by (simp add: server_a_def js_def)

text \<open>
  C6 as stated (addressed by sequence number, the new tail sequence number returned)
  fails: the request body is the timestamp, and two servers that restore to different
  indices give the caller the same empty result.
\<close>

theorem restoreHistory_counterexample:
  "map_of (body (restore_request (js ''s1'') (js ''2024-05-01T10:00:00.000Z''))) ''timestamp''
     = Some (js ''2024-05-01T10:00:00.000Z'')
   \<and> restoreHistory server_a (js ''s1'') (js ''2024-05-01T10:00:00.000Z'') = Inr ()
   \<and> restoreHistory server_b (js ''s1'') (js ''2024-05-01T10:00:00.000Z'') = Inr ()"
  by (simp add: restore_request_def restoreHistory_def server_a_def server_b_def)

text \<open>
  C9. \<open>appendToTimeline\<close> on any timeline and content: when the last event is
  \<open>NARRATIVE\<close> the content is concatenated onto it and the timeline keeps its length;
  otherwise exactly one \<open>NARRATIVE\<close> event is appended; either way the number of adjacent
  \<open>NARRATIVE\<close> pairs stays what it was.
\<close>

theorem appendToTimeline_coalesces:
  "(timeline v \<noteq> [] \<and> type (last (timeline v)) = ''NARRATIVE'' \<longrightarrow>
      timeline (appendToTimeline now c v) =
        butlast (timeline v) @ [(last (timeline v))\<lparr>content := Text (to_string (content (last (timeline v))) @ c)\<rparr>]
      \<and> length (timeline (appendToTimeline now c v)) = length (timeline v))
   \<and> (\<not> (timeline v \<noteq> [] \<and> type (last (timeline v)) = ''NARRATIVE'') \<longrightarrow>
      timeline (appendToTimeline now c v) =
        timeline v @ [\<lparr>type = ''NARRATIVE'', timestamp = now, content = Text c, icon = None, metadata = None\<rparr>])
   \<and> (timeline v \<noteq> [] \<and> type (last (timeline v)) = ''NARRATIVE'' \<and> content (last (timeline v)) = Text old
        \<longrightarrow> content (last (timeline (appendToTimeline now c v))) = Text (old @ c))
   \<and> narrativeBuffer (appendToTimeline now c v) = narrativeBuffer v
   \<and> adjacent_narratives (timeline (appendToTimeline now c v)) = adjacent_narratives (timeline v)"
proof (cases "timeline v" rule: rev_cases)
  case Nil
  then show ?thesis by (simp add: appendToTimeline_def)
next
  case (snoc ys y)
  have "adjacent_narratives ((ys @ [y]) @ [z]) = adjacent_narratives (ys @ [y])" if "type y \<noteq> ''NARRATIVE''" for z
    using that by (subst adjacent_snoc) simp
  with snoc show ?thesis by (simp add: appendToTimeline_def adjacent_snoc Let_def)
qed

text \<open>C9 on a timeline that ends in narrative, and on an empty one.\<close>

theorem appendToTimeline_coalesces_witness:
  "timeline (appendToTimeline (js ''10:00:02'') (js '' there'')
      (\<lparr>timeline = [\<lparr>type = ''NARRATIVE'', timestamp = js ''10:00:01'', content = Text (js ''Hello ''),
                        icon = None, metadata = None\<rparr>], narrativeBuffer = []\<rparr> :: unit view))
     = [\<lparr>type = ''NARRATIVE'', timestamp = js ''10:00:01'', content = Text (js ''Hello '' @ js '' there''),
           icon = None, metadata = None\<rparr>]
   \<and> timeline (appendToTimeline (js ''10:00:02'') (js '' there'') (\<lparr>timeline = [], narrativeBuffer = []\<rparr> :: unit view))
     = [\<lparr>type = ''NARRATIVE'', timestamp = js ''10:00:02'', content = Text (js '' there''),
           icon = None, metadata = None\<rparr>]"
  using appendToTimeline_coalesces [of "\<lparr>timeline = [\<lparr>type = ''NARRATIVE'', timestamp = js ''10:00:01'',
          content = Text (js ''Hello ''), icon = None, metadata = None\<rparr>], narrativeBuffer = []\<rparr> :: unit view"
        "js ''10:00:02''" "js '' there''"]
    appendToTimeline_coalesces [of "\<lparr>timeline = [], narrativeBuffer = []\<rparr> :: unit view"
        "js ''10:00:02''" "js '' there''"]
  by simp

end
